theory Spec2Isabelle
  imports Main "HOL-Library.AList"
begin

section \<open>Python string operations used by the backend\<close>

text \<open>
  \<^verbatim>\<open>str.split(sep)\<close> for a one-character separator: the pieces between the
  occurrences of the separator, in order; never an empty list.
\<close>

fun split_py :: "char \<Rightarrow> string \<Rightarrow> string list" where
  "split_py c [] = [[]]"
| "split_py c (x # xs) =
     (if x = c then [] # split_py c xs
      else (case split_py c xs of
              [] \<Rightarrow> [[x]]
            | p # ps \<Rightarrow> (x # p) # ps))"

text \<open>\<^verbatim>\<open>sub in s\<close> on strings: \<open>sub\<close> occurs in \<open>s\<close> as a contiguous substring.\<close>

fun startswith :: "string \<Rightarrow> string \<Rightarrow> bool" where
  "startswith [] s = True"
| "startswith (x # xs) [] = False"
| "startswith (x # xs) (y # ys) = (x = y \<and> startswith xs ys)"

fun str_contains :: "string \<Rightarrow> string \<Rightarrow> bool" where
  "str_contains sub [] = startswith sub []"
| "str_contains sub (y # ys) = (startswith sub (y # ys) \<or> str_contains sub ys)"

text \<open>
  \<^verbatim>\<open>str.rfind(c)\<close> for one character: the highest index at which \<open>c\<close> occurs,
  and \<open>-1\<close> when it does not occur.
\<close>

definition rfind :: "char \<Rightarrow> string \<Rightarrow> int" where
  "rfind c s = int (length s) - 1 - int (length (takeWhile (\<lambda>x. x \<noteq> c) (rev s)))"

text \<open>
  \<^verbatim>\<open>os.path.splitext\<close> (posixpath, through \<^verbatim>\<open>genericpath._splitext\<close>): the
  extension starts at the last dot of the last path component, and leading dots of that
  component do not start an extension. \<open>splitext_scan\<close> is the \<^verbatim>\<open>while\<close> loop that
  looks for a character other than a dot before the last dot.
\<close>

function splitext_scan :: "string \<Rightarrow> nat \<Rightarrow> nat \<Rightarrow> bool" where
  "splitext_scan p i d =
     (if i < d then (if p ! i \<noteq> CHR ''.'' then True else splitext_scan p (Suc i) d)
      else False)"
  by pat_completeness auto
termination
  by (relation "measure (\<lambda>(p, i, d). d - i)") auto

declare splitext_scan.simps [simp del]

definition splitext :: "string \<Rightarrow> string \<times> string" where
  "splitext p =
     (let sepIndex = rfind CHR ''/'' p;
          dotIndex = rfind CHR ''.'' p
      in if dotIndex > sepIndex \<and> splitext_scan p (nat (sepIndex + 1)) (nat dotIndex)
         then (take (nat dotIndex) p, drop (nat dotIndex) p)
         else (p, []))"

section \<open>Data model\<close>

text \<open>
  A filesystem node is a regular file with its contents or a directory with its entries.
  A directory is an association list with distinct names; \<^verbatim>\<open>os.listdir\<close> returns the
  names in the order of the list, so every statement below that holds for all directories
  holds for every listing order. Names are compared case-sensitively and there are no
  symbolic links.
\<close>

datatype node = File string | Dir "(string \<times> node) list"

type_synonym dir = "(string \<times> node) list"

text \<open>The values of a property list.\<close>

datatype pvalue =
    PString string
  | PInt int
  | PBool bool
  | PData string
  | PArray "pvalue list"
  | PDict "(string \<times> pvalue) list"

text \<open>
  The contents of \<^verbatim>\<open>Contents/Info.plist\<close>, seen through \<^verbatim>\<open>plistlib\<close>: either
  bytes that \<^verbatim>\<open>plistlib.load\<close> rejects, or bytes that it parses to a value;
  \<^verbatim>\<open>plistlib.dump\<close> writes bytes that parse back to the value dumped.
\<close>

datatype plist_file = Malformed | Plist pvalue

text \<open>The Python exceptions that the modelled code can raise.\<close>

datatype exn =
    FileNotFoundError
  | FileExistsError
  | NotADirectoryError
  | IsADirectoryError
  | DirectoryNotEmptyError
  | ShutilError
  | AttributeError
  | TypeError
  | InvalidFileException

text \<open>The outcome of \<^verbatim>\<open>Path(p).resolve(strict=False)\<close>; an error carries \<^verbatim>\<open>str(e)\<close>.\<close>

datatype resolved = Resolved | ROSError string | RRuntimeError string | RValueError string

text \<open>
  The execution environment, which the code only observes: path resolution,
  \<^verbatim>\<open>shutil.which\<close>, the result of running a command (\<open>None\<close> when the executable
  is not found, otherwise return code, standard output and standard error), the files
  the asset compiler writes into the scratch directory for a given command line, and
  \<^verbatim>\<open>str(Path(p))\<close>.
\<close>

record env =
  resolve :: "string \<Rightarrow> resolved"
  which :: "string \<Rightarrow> string option"
  run :: "string list \<Rightarrow> (int \<times> string \<times> string) option"
  actool_artifacts :: "string list \<Rightarrow> dir"
  path_str :: "string \<Rightarrow> string"

text \<open>The stages of the pipeline, for the history of calls made by the constructor.\<close>

datatype stage = ValidateData | CompileIcon | UpdateInfoPlist | MoveIconToApp | ResignAppForLocalUse

text \<open>
  The state: the attributes of the \<^verbatim>\<open>IconHandler\<close> object (\<open>iconName\<close> is
  \<open>None\<close> until \<^verbatim>\<open>compileIcon\<close> assigns it), the lines printed, the commands run,
  the scratch directory \<^verbatim>\<open>./OutputDir\<close> and the parts of the bundle at
  \<open>appBundlePath\<close> that the code touches: \<^verbatim>\<open>Contents/Info.plist\<close>,
  \<^verbatim>\<open>Contents/Resources\<close> and \<^verbatim>\<open>Contents/_CodeSignature\<close> (\<open>None\<close> when absent).
  The bundle and the scratch directory are disjoint parts of the filesystem.
  \<open>entered\<close> is a history variable: the stages the constructor has called, in order.
\<close>

record state =
  cliBased :: bool
  verboseErrors :: bool
  appBundlePath :: string
  iconBundlePath :: string
  iconName :: "string option"
  stdout :: "string list"
  calls :: "string list list"
  outputDir :: "node option"
  infoPlist :: "plist_file option"
  resources :: "node option"
  codeSignature :: "node option"
  entered :: "stage list"

text \<open>
  A call either raises or returns, and in both cases leaves a state behind.
\<close>

type_synonym 'a outcome = "(exn + 'a) \<times> state"

definition bind :: "'a outcome \<Rightarrow> ('a \<Rightarrow> state \<Rightarrow> 'b outcome) \<Rightarrow> 'b outcome" where
  "bind m f = (case m of (Inl e, s) \<Rightarrow> (Inl e, s) | (Inr a, s) \<Rightarrow> f a s)"


section \<open>Logging and path validation\<close>

definition print_line :: "string \<Rightarrow> state \<Rightarrow> state" where
  "print_line m s = s\<lparr>stdout := stdout s @ [m]\<rparr>"

text \<open>
  \<^verbatim>\<open>logMessage\<close>: the guard \<^verbatim>\<open>if self.logMessage\<close> tests a bound method, which is
  always true, so the simple message is always printed; the verbose one follows when
  verbose errors are enabled and it is not empty.
\<close>

definition logMessage :: "string \<Rightarrow> string \<Rightarrow> state \<Rightarrow> state" where
  "logMessage simpleMessage verboseMessage s =
     (let s1 = print_line simpleMessage s
      in if verboseErrors s \<and> verboseMessage \<noteq> []
         then print_line (''    '' @ verboseMessage) s1
         else s1)"

text \<open>
  \<^verbatim>\<open>validatePath\<close>: \<open>True\<close> when the path resolves; when resolution raises
  \<^verbatim>\<open>OSError\<close>, \<^verbatim>\<open>RuntimeError\<close> or \<^verbatim>\<open>ValueError\<close>, a message and \<open>False\<close>.
\<close>

definition validatePath :: "env \<Rightarrow> string \<Rightarrow> state \<Rightarrow> bool outcome" where
  "validatePath E filePath s =
     (case resolve E filePath of
        Resolved \<Rightarrow> (Inr True, s)
      | ROSError e \<Rightarrow>
          (Inr False, logMessage (''Error finding the path '' @ filePath) (''The error was: '' @ e) s)
      | RRuntimeError e \<Rightarrow>
          (Inr False, logMessage (''Error finding the path '' @ filePath) (''The error was: '' @ e) s)
      | RValueError e \<Rightarrow>
          (Inr False, logMessage (''Error finding the path '' @ filePath) (''The error was: '' @ e) s))"

text \<open>
  \<^verbatim>\<open>validateData\<close>, called without an argument: clears the screen, runs the asset
  compiler without arguments and compares its standard error, then validates
  \<^verbatim>\<open>{appBundlePath}/Contents\<close> and discards the result. \<^verbatim>\<open>subprocess.run\<close> raises
  \<^verbatim>\<open>FileNotFoundError\<close> when the executable is not found.
\<close>

definition validateData :: "env \<Rightarrow> state \<Rightarrow> unit outcome" where
  "validateData E s =
     (case run E [''clear''] of
        None \<Rightarrow> (Inl FileNotFoundError, s)
      | Some _ \<Rightarrow>
          (let s1 = s\<lparr>calls := calls s @ [[''clear'']]\<rparr>
           in case run E [''actool''] of
                None \<Rightarrow> (Inl FileNotFoundError, s1)
              | Some (rc, out, err) \<Rightarrow>
                  (let s2 = s1\<lparr>calls := calls s1 @ [[''actool'']]\<rparr>;
                       s3 = (if err = ''Error: No arguments specified, please consult `man actool` in Terminal.''
                             then logMessage ''Please install Xcode command line tools''
                                    (''Error finding '' @ [CHR 0x22] @ ''actool'' @ [CHR 0x22] @
                                       '' please ensure Xcode is fully installed. It may need a re-install.'') s2
                             else logMessage ''Xcode CLI Tools installed already.''
                                    ''Actool has been located.'' s2)
                   in bind (validatePath E (appBundlePath s3 @ ''/Contents'') s3)
                        (\<lambda>_ s4. (Inr (), s4)))))"

section \<open>Asset compilation\<close>

text \<open>
  \<^verbatim>\<open>os.rename(old, new)\<close> inside one directory. Renaming a file onto itself does
  nothing; an existing file is replaced by a file, an existing empty directory by a
  directory; the other combinations raise.
\<close>

definition os_rename :: "string \<Rightarrow> string \<Rightarrow> dir \<Rightarrow> exn + dir" where
  "os_rename old new D =
     (case map_of D old of
        None \<Rightarrow> Inl FileNotFoundError
      | Some n \<Rightarrow>
          if old = new then Inr D
          else (case map_of D new of
                  None \<Rightarrow> Inr (AList.delete old D @ [(new, n)])
                | Some (File c) \<Rightarrow>
                    (case n of
                       File c' \<Rightarrow> Inr (AList.delete new (AList.delete old D) @ [(new, n)])
                     | Dir es' \<Rightarrow> Inl NotADirectoryError)
                | Some (Dir es) \<Rightarrow>
                    (case n of
                       File c' \<Rightarrow> Inl IsADirectoryError
                     | Dir es' \<Rightarrow>
                         if es = [] then Inr (AList.delete new (AList.delete old D) @ [(new, n)])
                         else Inl DirectoryNotEmptyError)))"

text \<open>
  The loop at the end of \<^verbatim>\<open>compileIcon\<close> over the listing of the scratch directory:
  every entry whose extension is not \<^verbatim>\<open>.car\<close> is renamed to \<^verbatim>\<open>AppIcon\<close> followed
  by its extension. An exception leaves the renames done so far in place.
\<close>

fun rename_loop :: "string list \<Rightarrow> dir \<Rightarrow> (exn + unit) \<times> dir" where
  "rename_loop [] D = (Inr (), D)"
| "rename_loop (file # files) D =
     (let ext = snd (splitext file);
          new_name = ''AppIcon'' @ ext
      in if ext \<noteq> ''.car''
         then (case os_rename file new_name D of
                 Inl e \<Rightarrow> (Inl e, D)
               | Inr D' \<Rightarrow> rename_loop files D')
         else rename_loop files D)"

definition actool_cmd :: "string \<Rightarrow> string \<Rightarrow> string list" where
  "actool_cmd iconPath name =
     [''actool'', iconPath, ''--compile'', ''./OutputDir'', ''--app-icon'', name,
      ''--platform'', ''macosx'', ''--output-partial-info-plist'',
      ''assetcatalog_generated_info.plist'', ''--minimum-deployment-target'', ''26.0'',
      ''--enable-on-demand-resources'', ''NO'', ''--include-all-app-icons'']"

text \<open>
  \<^verbatim>\<open>compileIcon\<close>: the scratch directory is removed (\<^verbatim>\<open>shutil.rmtree\<close> raises
  \<^verbatim>\<open>NotADirectoryError\<close> on a regular file; a missing directory is tolerated) and
  created again; when the path is not valid the method returns; otherwise the icon name
  is stored, the asset compiler is run, its output is logged whatever its return code,
  and the files it wrote are renamed.
\<close>

definition compileIcon :: "env \<Rightarrow> string \<Rightarrow> state \<Rightarrow> unit outcome" where
  "compileIcon E iconPath s =
     (case outputDir s of
        Some (File c) \<Rightarrow> (Inl NotADirectoryError, s)
      | _ \<Rightarrow>
          bind (validatePath E iconPath (s\<lparr>outputDir := Some (Dir [])\<rparr>))
            (\<lambda>valid s2.
               if \<not> valid then (Inr (), s2)
               else
                 (let name = hd (split_py CHR ''.'' (last (split_py CHR ''/'' iconPath)));
                      s3 = s2\<lparr>iconName := Some name\<rparr>;
                      cmd = actool_cmd iconPath name
                  in case run E cmd of
                       None \<Rightarrow> (Inl FileNotFoundError, s3)
                     | Some (rc, out, err) \<Rightarrow>
                         (let files = actool_artifacts E cmd;
                              s4 = s3\<lparr>calls := calls s3 @ [cmd], outputDir := Some (Dir files)\<rparr>;
                              s5 = logMessage ''Icon compiled in ./OutputDir''
                                     (''stdout: '' @ out @ [CHR 0x0A, CHR 0x0A] @ ''stderr: '' @ err) s4
                          in case rename_loop (map fst files) files of
                               (r, files') \<Rightarrow> (r, s5\<lparr>outputDir := Some (Dir files')\<rparr>)))))"

section \<open>Metadata edit\<close>

text \<open>
  \<^verbatim>\<open>updateInfoPlist\<close> on \<^verbatim>\<open>{appBundlePath}/Contents/Info.plist\<close>: the file is
  opened and parsed; the right-hand side \<^verbatim>\<open>self.iconName\<close> is evaluated before the
  item assignment, which needs a dictionary; \<^verbatim>\<open>dict\<close> assignment keeps the position
  of an existing key and appends a new one, as \<open>AList.update\<close> does.
\<close>

definition updateInfoPlist :: "string \<Rightarrow> state \<Rightarrow> unit outcome" where
  "updateInfoPlist fallbackIconFile s =
     (case infoPlist s of
        None \<Rightarrow> (Inl FileNotFoundError, s)
      | Some Malformed \<Rightarrow> (Inl InvalidFileException, s)
      | Some (Plist plistData) \<Rightarrow>
          (case iconName s of
             None \<Rightarrow> (Inl AttributeError, s)
           | Some name \<Rightarrow>
               (case plistData of
                  PDict d \<Rightarrow>
                    (let d1 = AList.update ''CFBundleIconName'' (PString name) d;
                         d2 = (if fallbackIconFile \<noteq> []
                               then AList.update ''CFBundleIconFile'' (PString fallbackIconFile) d1
                               else d1)
                     in (Inr (), s\<lparr>infoPlist := Some (Plist (PDict d2))\<rparr>))
                | _ \<Rightarrow> (Inl TypeError, s))))"

section \<open>Relocation\<close>

text \<open>
  \<^verbatim>\<open>shutil.move(src, dst)\<close> where \<open>src\<close> is the node (if any) at the source path and
  \<open>dst\<close> is the entry \<open>f\<close> of the directory \<open>D\<close>, \<open>f\<close> being also the base name of
  the source. When the destination is a directory the source is moved inside it, unless
  an entry of that name is already there; an existing file is replaced by a file and
  makes the copy of a directory fail; otherwise the source is renamed to the
  destination.
\<close>

definition shutil_move :: "node option \<Rightarrow> string \<Rightarrow> dir \<Rightarrow> exn + dir" where
  "shutil_move src f D =
     (case map_of D f of
        Some (Dir d) \<Rightarrow>
          (case map_of d f of
             Some x \<Rightarrow> Inl ShutilError
           | None \<Rightarrow>
               (case src of
                  None \<Rightarrow> Inl FileNotFoundError
                | Some n \<Rightarrow> Inr (AList.update f (Dir (d @ [(f, n)])) D)))
      | Some (File c) \<Rightarrow>
          (case src of
             None \<Rightarrow> Inl FileNotFoundError
           | Some (File c') \<Rightarrow> Inr (AList.update f (File c') D)
           | Some (Dir es) \<Rightarrow> Inl FileExistsError)
      | None \<Rightarrow>
          (case src of
             None \<Rightarrow> Inl FileNotFoundError
           | Some n \<Rightarrow> Inr (D @ [(f, n)])))"

text \<open>
  One move of the first loop of \<^verbatim>\<open>moveIconToApp\<close>: the entry \<open>f\<close> of the resource
  directory \<open>R\<close> goes to \<^verbatim>\<open>oldFiles/f\<close>. A regular file named \<^verbatim>\<open>oldFiles\<close> makes
  every such move fail. The entry \<^verbatim>\<open>oldFiles\<close> exists from the \<^verbatim>\<open>mkdir\<close> on; were
  it missing, the fallback of \<^verbatim>\<open>shutil.move\<close> would create it for a directory and
  fail for a file.
\<close>

definition move_to_backup :: "string \<Rightarrow> dir \<Rightarrow> exn + dir" where
  "move_to_backup f R =
     (case map_of R ''oldFiles'' of
        Some (Dir B) \<Rightarrow>
          (case shutil_move (map_of R f) f B of
             Inl e \<Rightarrow> Inl e
           | Inr B' \<Rightarrow> Inr (AList.update ''oldFiles'' (Dir B') (AList.delete f R)))
      | Some (File c) \<Rightarrow>
          (case map_of R f of
             None \<Rightarrow> Inl FileNotFoundError
           | Some n \<Rightarrow> Inl NotADirectoryError)
      | None \<Rightarrow>
          (case map_of R f of
             Some (Dir es) \<Rightarrow> Inr (AList.delete f R @ [(''oldFiles'', Dir [(f, Dir es)])])
           | _ \<Rightarrow> Inl FileNotFoundError))"

fun move_old :: "string list \<Rightarrow> dir \<Rightarrow> (exn + unit) \<times> dir" where
  "move_old [] R = (Inr (), R)"
| "move_old (f # fs) R =
     (if \<not> str_contains ''oldFiles'' f
      then (case move_to_backup f R of
              Inl e \<Rightarrow> (Inl e, R)
            | Inr R' \<Rightarrow> move_old fs R')
      else move_old fs R)"

text \<open>
  The second loop: every entry of the listing of the scratch directory \<open>O\<close> goes to
  the resource directory \<open>R\<close> under its own name.
\<close>

fun move_new :: "string list \<Rightarrow> dir \<Rightarrow> dir \<Rightarrow> (exn + unit) \<times> dir \<times> dir" where
  "move_new [] O' R = (Inr (), O', R)"
| "move_new (f # fs) O' R =
     (case shutil_move (map_of O' f) f R of
        Inl e \<Rightarrow> (Inl e, O', R)
      | Inr R' \<Rightarrow> move_new fs (AList.delete f O') R')"

text \<open>
  \<^verbatim>\<open>moveIconToApp\<close>, called without an argument: lists the resource directory,
  creates \<^verbatim>\<open>oldFiles\<close> (an existing entry of that name raises
  \<^verbatim>\<open>FileExistsError\<close>, which is caught), moves the listed entries whose name does not
  contain \<^verbatim>\<open>oldFiles\<close>, then moves the scratch directory's entries in.
\<close>

definition moveIconToApp :: "state \<Rightarrow> unit outcome" where
  "moveIconToApp s =
     (case resources s of
        None \<Rightarrow> (Inl FileNotFoundError, s)
      | Some (File c) \<Rightarrow> (Inl NotADirectoryError, s)
      | Some (Dir R) \<Rightarrow>
          (let allOldFiles = map fst R;
               R1 = (case map_of R ''oldFiles'' of
                       None \<Rightarrow> R @ [(''oldFiles'', Dir [])]
                     | Some x \<Rightarrow> R)
           in case move_old allOldFiles R1 of
                (Inl e, R2) \<Rightarrow> (Inl e, s\<lparr>resources := Some (Dir R2)\<rparr>)
              | (Inr u, R2) \<Rightarrow>
                  (case outputDir s of
                     None \<Rightarrow> (Inl FileNotFoundError, s\<lparr>resources := Some (Dir R2)\<rparr>)
                   | Some (File c) \<Rightarrow> (Inl NotADirectoryError, s\<lparr>resources := Some (Dir R2)\<rparr>)
                   | Some (Dir allFiles) \<Rightarrow>
                       (case move_new (map fst allFiles) allFiles R2 of
                          (r, O', R3) \<Rightarrow>
                            (r, s\<lparr>resources := Some (Dir R3), outputDir := Some (Dir O')\<rparr>)))))"

section \<open>Re-signing\<close>

text \<open>
  \<^verbatim>\<open>resignAppForLocalUse\<close>, called without a bundle path: validates the bundle path,
  looks for \<^verbatim>\<open>codesign\<close> (a missing or empty result is a failure), removes an
  existing signature directory (\<^verbatim>\<open>rmtree\<close> with \<^verbatim>\<open>ignore_errors\<close> leaves a regular
  file in place), runs \<^verbatim>\<open>xattr\<close> when found, runs \<^verbatim>\<open>codesign\<close> and reports by its
  return code. What the two tools do to the bundle is outside this repository and is
  not modelled; their invocations are recorded in \<open>calls\<close>.
\<close>

definition resignAppForLocalUse :: "env \<Rightarrow> string \<Rightarrow> state \<Rightarrow> bool outcome" where
  "resignAppForLocalUse E identity s =
     (let bundlePath = path_str E (appBundlePath s)
      in bind (validatePath E bundlePath s)
           (\<lambda>valid s1.
              if \<not> valid then (Inr False, s1)
              else
                (case which E ''codesign'' of
                   None \<Rightarrow>
                     (Inr False,
                      logMessage ''codesign not found. Please install Xcode Command Line Tools.''
                        ''Install Xcode or run `xcode-select --install`.'' s1)
                 | Some codesignPath \<Rightarrow>
                     if codesignPath = []
                     then (Inr False,
                           logMessage ''codesign not found. Please install Xcode Command Line Tools.''
                             ''Install Xcode or run `xcode-select --install`.'' s1)
                     else
                       (let s2 = (case codeSignature s1 of
                                    Some (Dir es) \<Rightarrow> s1\<lparr>codeSignature := None\<rparr>
                                  | _ \<Rightarrow> s1)
                        in bind
                             (case which E ''xattr'' of
                                None \<Rightarrow> (Inr (), s2)
                              | Some xattrPath \<Rightarrow>
                                  if xattrPath = [] then (Inr (), s2)
                                  else (case run E [xattrPath, ''-cr'', bundlePath] of
                                          None \<Rightarrow> (Inl FileNotFoundError, s2)
                                        | Some r \<Rightarrow>
                                            (Inr (), s2\<lparr>calls := calls s2 @ [[xattrPath, ''-cr'', bundlePath]]\<rparr>)))
                             (\<lambda>u s3.
                                (let cmd = [codesignPath, ''--force'', ''--deep'', ''--sign'', identity, bundlePath]
                                 in case run E cmd of
                                      None \<Rightarrow> (Inl FileNotFoundError, s3)
                                    | Some (returncode, out, err) \<Rightarrow>
                                        (let s4 = s3\<lparr>calls := calls s3 @ [cmd]\<rparr>
                                         in if returncode \<noteq> 0
                                            then (Inr False,
                                                  logMessage ''Failed to re-sign the application.''
                                                    (''stdout: '' @ out @ [CHR 0x0A, CHR 0x0A] @ ''stderr: '' @ err) s4)
                                            else (Inr True,
                                                  logMessage ''App re-signed for local use.''
                                                    (''stdout: '' @ out @ [CHR 0x0A, CHR 0x0A] @ ''stderr: '' @ err) s4))))))))"

section \<open>The pipeline\<close>

definition enter :: "stage \<Rightarrow> state \<Rightarrow> state" where
  "enter st s = s\<lparr>entered := entered s @ [st]\<rparr>"

text \<open>
  \<^verbatim>\<open>IconHandler.__init__\<close>: stores its arguments (the object is new, so
  \<open>iconName\<close> is not set) and calls the five stages in order, looking at no return
  value; an exception raised by a stage ends the constructor.
\<close>

definition IconHandler_init :: "env \<Rightarrow> string \<Rightarrow> string \<Rightarrow> bool \<Rightarrow> bool \<Rightarrow> state \<Rightarrow> unit outcome" where
  "IconHandler_init E appBundlePath' iconBundlePath' cliBased' verboseErrors' s0 =
     (let s = s0\<lparr>cliBased := cliBased', verboseErrors := verboseErrors',
                 appBundlePath := appBundlePath', iconBundlePath := iconBundlePath',
                 iconName := None, entered := []\<rparr>
      in bind (validateData E (enter ValidateData s))
           (\<lambda>u s1. bind (compileIcon E (iconBundlePath s1) (enter CompileIcon s1))
           (\<lambda>u s2. bind (updateInfoPlist [] (enter UpdateInfoPlist s2))
           (\<lambda>u s3. bind (moveIconToApp (enter MoveIconToApp s3))
           (\<lambda>u s4. bind (resignAppForLocalUse E ''-'' (enter ResignAppForLocalUse s4))
           (\<lambda>b s5. (Inr (), s5)))))))"

section \<open>Specification-level notions and the scenario of the specification\<close>

definition canonical_name :: "string \<Rightarrow> string" where
  "canonical_name file =
     (if snd (splitext file) \<noteq> ''.car'' then ''AppIcon'' @ snd (splitext file) else file)"

definition is_file :: "node \<Rightarrow> bool" where
  "is_file n = (case n of File c \<Rightarrow> True | Dir es \<Rightarrow> False)"

definition all_files :: "dir \<Rightarrow> bool" where
  "all_files D = list_all (\<lambda>(f, n). is_file n) D"

definition backup_of :: "dir \<Rightarrow> dir option" where
  "backup_of R = (case map_of R ''oldFiles'' of Some (Dir B) \<Rightarrow> Some B | _ \<Rightarrow> None)"

definition nul_icon_path :: string where
  "nul_icon_path = ''icons/Rocket'' @ [CHR 0x00] @ ''.icon''"

definition scenario_env :: env where
  "scenario_env =
     \<lparr>resolve = (\<lambda>p. if CHR 0x00 \<in> set p then RValueError ''embedded null byte'' else Resolved),
      which = (\<lambda>t. if t = ''codesign'' then Some ''/usr/bin/codesign''
                   else if t = ''xattr'' then Some ''/usr/bin/xattr'' else None),
      run = (\<lambda>cmd. Some (0, [], [])),
      actool_artifacts = (\<lambda>cmd. [(''Assets.car'', File ''car''), (''Rocket.icns'', File ''icns'')]),
      path_str = (\<lambda>p. p)\<rparr>"

definition nosign_env :: env where
  "nosign_env = scenario_env\<lparr>which := (\<lambda>t. None)\<rparr>"

definition scenario_state :: state where
  "scenario_state =
     \<lparr>cliBased = True, verboseErrors = False, appBundlePath = ''MyApp.app'',
      iconBundlePath = ''icons/Rocket.icon'',
      iconName = None, stdout = [], calls = [], outputDir = None,
      infoPlist = Some (Plist (PDict [(''CFBundleName'', PString ''MyApp'')])),
      resources = Some (Dir [(''old.icns'', File ''old'')]),
      codeSignature = Some (Dir [(''CodeResources'', File ''sig'')]), entered = []\<rparr>"

definition malformed_state :: state where
  "malformed_state = scenario_state\<lparr>infoPlist := Some Malformed\<rparr>"

section \<open>Properties\<close>

lemma takeWhile_absent: "c \<notin> set s \<Longrightarrow> takeWhile (\<lambda>x. x \<noteq> c) s = s"
  by (induction s) auto

lemma split_py_nonempty: "split_py c s \<noteq> []"
  by (induction s) (auto split: list.splits)

lemma split_py_two: "c \<in> set s \<Longrightarrow> tl (split_py c s) \<noteq> []"
  using split_py_nonempty by (induction s) (auto split: list.splits)

lemma hd_split_py: "hd (split_py c s) = takeWhile (\<lambda>x. x \<noteq> c) s"
  by (induction s) (auto split: list.splits simp: split_py_nonempty)

lemma last_split_py: "last (split_py c s) = rev (takeWhile (\<lambda>x. x \<noteq> c) (rev s))"
proof (induction s)
  case Nil
  show ?case by simp
next
  case (Cons x xs)
  show ?case
  proof (cases "x = c")
    case True
    then show ?thesis
      using Cons.IH by (simp add: split_py_nonempty takeWhile_tail)
  next
    case False
    obtain p ps where sp: "split_py c xs = p # ps"
      using split_py_nonempty [of c xs] by (cases "split_py c xs") auto
    show ?thesis
    proof (cases "c \<in> set xs")
      case True
      then have "ps \<noteq> []" using sp split_py_two [of c xs] by simp
      moreover have "takeWhile (\<lambda>x. x \<noteq> c) (rev xs @ [x]) = takeWhile (\<lambda>x. x \<noteq> c) (rev xs)"
        using True by (simp add: takeWhile_append1)
      ultimately show ?thesis using False sp Cons.IH by simp
    next
      case False
      then have "split_py c xs = [xs]"
        by (induction xs) auto
      with sp \<open>x \<noteq> c\<close> False show ?thesis
        by (simp add: takeWhile_absent)
    qed
  qed
qed

lemma rfind_absent: "c \<notin> set s \<Longrightarrow> rfind c s = -1"
  by (simp add: rfind_def takeWhile_absent)

lemma rfind_last: "c \<notin> set r \<Longrightarrow> rfind c (xs @ c # r) = int (length xs)"
proof -
  assume a: "c \<notin> set r"
  have "takeWhile (\<lambda>x. x \<noteq> c) (rev r @ c # rev xs) = rev r"
    using a by (simp add: takeWhile_tail takeWhile_absent)
  then show ?thesis by (simp add: rfind_def)
qed

lemma rfind_nonneg:
  assumes "0 \<le> rfind c s"
  shows "\<exists>xs r. s = xs @ c # r \<and> c \<notin> set r \<and> rfind c s = int (length xs)"
proof -
  have "c \<in> set s" using assms rfind_absent [of c s] by force
  then obtain xs r where "s = xs @ c # r" "c \<notin> set r"
    by (meson split_list_last)
  then show ?thesis using rfind_last by blast
qed

lemma splitext_ext_shape:
  "snd (splitext f) = [] \<or>
   (\<exists>r. snd (splitext f) = CHR ''.'' # r \<and> CHR ''.'' \<notin> set r \<and> CHR ''/'' \<notin> set r)"
proof (cases "rfind CHR ''.'' f > rfind CHR ''/'' f
    \<and> splitext_scan f (nat (rfind CHR ''/'' f + 1)) (nat (rfind CHR ''.'' f))")
  case False
  then show ?thesis by (auto simp: splitext_def Let_def)
next
  case True
  have "-1 \<le> rfind CHR ''/'' f" by (simp add: rfind_def) (metis length_rev length_takeWhile_le)
  then have "0 \<le> rfind CHR ''.'' f" using True by linarith
  then obtain xs r where f: "f = xs @ CHR ''.'' # r" "CHR ''.'' \<notin> set r"
    and d: "rfind CHR ''.'' f = int (length xs)"
    using rfind_nonneg by blast
  have "CHR ''/'' \<notin> set r"
  proof
    assume "CHR ''/'' \<in> set r"
    then obtain r1 r2 where r: "r = r1 @ CHR ''/'' # r2" "CHR ''/'' \<notin> set r2"
      by (meson split_list_last)
    have "rfind CHR ''/'' ((xs @ CHR ''.'' # r1) @ CHR ''/'' # r2) = int (length (xs @ CHR ''.'' # r1))"
      using r(2) by (rule rfind_last)
    then have "rfind CHR ''/'' f = int (length xs) + 1 + int (length r1)"
      using f r by simp
    with True d show False by simp
  qed
  moreover have "snd (splitext f) = CHR ''.'' # r"
    using True d f by (simp add: splitext_def Let_def)
  ultimately show ?thesis using f by blast
qed

lemma splitext_AppIcon: "snd (splitext (''AppIcon'' @ snd (splitext f))) = snd (splitext f)"
proof -
  consider "snd (splitext f) = []"
    | r where "snd (splitext f) = CHR ''.'' # r" "CHR ''.'' \<notin> set r" "CHR ''/'' \<notin> set r"
    using splitext_ext_shape by blast
  then show ?thesis
  proof cases
    case 1
    then show ?thesis by (simp add: splitext_def rfind_def)
  next
    case 2
    have d: "rfind CHR ''.'' (''AppIcon'' @ CHR ''.'' # r) = int (length ''AppIcon'')"
      using 2(2) by (rule rfind_last)
    have s: "rfind CHR ''/'' (''AppIcon'' @ CHR ''.'' # r) = -1"
      using 2(3) by (intro rfind_absent) simp
    have sc: "splitext_scan (''AppIcon'' @ CHR ''.'' # r) 0 7"
      by (subst splitext_scan.simps) simp
    show ?thesis
      using d s sc 2(1) by (simp add: splitext_def Let_def)
  qed
qed

lemma ext_canonical_name: "snd (splitext (canonical_name f)) = snd (splitext f)"
  using splitext_AppIcon [of f] by (auto simp: canonical_name_def)

lemma canonical_name_idem: "canonical_name (canonical_name f) = canonical_name f"
  using splitext_AppIcon [of f] by (auto simp: canonical_name_def)

lemma all_files_map_of:
  "distinct (map fst D) \<Longrightarrow> all_files D = (\<forall>g n. map_of D g = Some n \<longrightarrow> is_file n)"
  by (auto simp: all_files_def list_all_iff)

lemma os_rename_file:
  assumes dist: "distinct (map fst D)"
    and old: "map_of D old = Some n"
    and files: "all_files D"
  shows "\<exists>D1. os_rename old new D = Inr D1 \<and> distinct (map fst D1) \<and> all_files D1
           \<and> map_of D1 = ((map_of D)(old := None))(new \<mapsto> n)"
proof (cases "old = new")
  case True
  have "map_of D = ((map_of D)(old := None))(old \<mapsto> n)"
    using old by (auto simp: fun_eq_iff)
  with True old dist files show ?thesis by (simp add: os_rename_def)
next
  case False
  have fn: "is_file n" using files old dist by (simp add: all_files_map_of)
  let ?D1 = "AList.delete new (AList.delete old D) @ [(new, n)]"
  have d1: "distinct (map fst ?D1)"
    using dist by (simp add: distinct_delete delete_notin_dom)
  have m1: "map_of ?D1 = ((map_of D)(old := None))(new \<mapsto> n)"
    by (auto simp: fun_eq_iff map_add_def delete_conv split: option.splits)
  have f1: "all_files ?D1"
    using files fn by (auto simp: all_files_def list_all_iff AList.delete_eq)
  have "os_rename old new D = Inr ?D1"
  proof (cases "map_of D new")
    case None
    then have "AList.delete new (AList.delete old D) = AList.delete old D"
      by (metis delete_id delete_notin_dom delete_twist  domIff dom_map_of_conv_image_fst)
    with None old False show ?thesis by (simp add: os_rename_def)
  next
    case (Some m)
    then have "is_file m" using files dist by (simp add: all_files_map_of)
    with Some fn old False show ?thesis
      by (auto simp: os_rename_def is_file_def split: node.splits)
  qed
  with d1 m1 f1 show ?thesis by blast
qed

lemma rename_loop_files:
  assumes "distinct (map fst D)" "all_files D" "set fs \<subseteq> dom (map_of D)" "distinct fs"
  shows "\<exists>D'. rename_loop fs D = (Inr (), D') \<and> distinct (map fst D') \<and> all_files D'
           \<and> dom (map_of D') = (dom (map_of D) - set fs) \<union> canonical_name ` set fs
           \<and> (\<forall>g. g \<notin> set fs \<union> canonical_name ` set fs \<or> (g \<in> set fs \<and> snd (splitext g) = ''.car'')
                  \<longrightarrow> map_of D' g = map_of D g)"
  using assms
proof (induction fs arbitrary: D)
  case Nil
  then show ?case by simp
next
  case (Cons f fs)
  show ?case
  proof (cases "snd (splitext f) = ''.car''")
    case True
    have cf: "canonical_name f = f" using True by (simp add: canonical_name_def)
    from Cons.prems obtain D' where D':
      "rename_loop fs D = (Inr (), D')" "distinct (map fst D')" "all_files D'"
      "dom (map_of D') = (dom (map_of D) - set fs) \<union> canonical_name ` set fs"
      "\<forall>g. g \<notin> set fs \<union> canonical_name ` set fs \<or> (g \<in> set fs \<and> snd (splitext g) = ''.car'')
                  \<longrightarrow> map_of D' g = map_of D g"
      using Cons.IH [of D] by auto
    have fnot: "f \<notin> canonical_name ` set fs \<or> f \<in> canonical_name ` set fs" by simp
    have "f \<notin> set fs" using Cons.prems by simp
    have notc: "f \<notin> canonical_name ` set fs"
    proof
      assume "f \<in> canonical_name ` set fs"
      then obtain h where h: "h \<in> set fs" "f = canonical_name h" by blast
      then have "snd (splitext h) = ''.car''" using True ext_canonical_name [of h] by simp
      then have "canonical_name h = h" by (simp add: canonical_name_def)
      with h \<open>f \<notin> set fs\<close> show False by simp
    qed
    have "rename_loop (f # fs) D = (Inr (), D')"
      using True D'(1) by simp
    moreover have "dom (map_of D') = (dom (map_of D) - set (f # fs)) \<union> canonical_name ` set (f # fs)"
      using D'(4) cf Cons.prems(3) \<open>f \<notin> set fs\<close> by auto
    moreover have "\<forall>g. g \<notin> set (f # fs) \<union> canonical_name ` set (f # fs)
          \<or> (g \<in> set (f # fs) \<and> snd (splitext g) = ''.car'') \<longrightarrow> map_of D' g = map_of D g"
      using D'(5) notc \<open>f \<notin> set fs\<close> by auto
    ultimately show ?thesis using D'(2,3) by blast
  next
    case False
    have cf: "canonical_name f = ''AppIcon'' @ snd (splitext f)"
      using False by (simp add: canonical_name_def)
    from Cons.prems obtain n where n: "map_of D f = Some n" by auto
    obtain D1 where D1: "os_rename f (canonical_name f) D = Inr D1" "distinct (map fst D1)"
      "all_files D1" "map_of D1 = ((map_of D)(f := None))(canonical_name f \<mapsto> n)"
      using os_rename_file [OF Cons.prems(1) n Cons.prems(2)] by blast
    have sub: "set fs \<subseteq> dom (map_of D1)"
      using Cons.prems(3,4) D1(4) by auto
    obtain D' where D':
      "rename_loop fs D1 = (Inr (), D')" "distinct (map fst D')" "all_files D'"
      "dom (map_of D') = (dom (map_of D1) - set fs) \<union> canonical_name ` set fs"
      "\<forall>g. g \<notin> set fs \<union> canonical_name ` set fs \<or> (g \<in> set fs \<and> snd (splitext g) = ''.car'')
                  \<longrightarrow> map_of D' g = map_of D1 g"
      using Cons.IH [OF D1(2) D1(3) sub] Cons.prems(4) by auto
    have run: "rename_loop (f # fs) D = (Inr (), D')"
      using False D1(1) D'(1) cf by (simp add: Let_def)
    have dom1: "dom (map_of D1) = (dom (map_of D) - {f}) \<union> {canonical_name f}"
      using D1(4) by auto
    have "dom (map_of D') = (dom (map_of D) - set (f # fs)) \<union> canonical_name ` set (f # fs)"
    proof -
      have "canonical_name f \<in> set fs \<Longrightarrow> canonical_name f \<in> canonical_name ` set fs"
        using canonical_name_idem [of f] by (metis imageI)
      then show ?thesis using D'(4) dom1 by auto
    qed
    moreover have "\<forall>g. g \<notin> set (f # fs) \<union> canonical_name ` set (f # fs)
          \<or> (g \<in> set (f # fs) \<and> snd (splitext g) = ''.car'') \<longrightarrow> map_of D' g = map_of D g"
    proof (intro allI impI)
      fix g
      assume g: "g \<notin> set (f # fs) \<union> canonical_name ` set (f # fs)
          \<or> (g \<in> set (f # fs) \<and> snd (splitext g) = ''.car'')"
      have gf: "g \<noteq> f" using g False by auto
      have gc: "g \<noteq> canonical_name f"
        using g False ext_canonical_name [of f] by auto
      have "map_of D' g = map_of D1 g" using D'(5) g gf by auto
      then show "map_of D' g = map_of D g" using D1(4) gf gc by simp
    qed
    ultimately show ?thesis using run D'(2,3) by blast
  qed
qed

lemma startswith_refl: "startswith s s"
  by (induction s) auto

lemma str_contains_refl: "str_contains s s"
  by (cases s) (auto simp: startswith_refl)

lemma shutil_move_other:
  "shutil_move src f D = Inr D' \<Longrightarrow> g \<noteq> f \<Longrightarrow> map_of D' g = map_of D g"
  by (auto simp: shutil_move_def update_conv' map_add_def split: option.splits node.splits)

lemma shutil_move_dom:
  "shutil_move src f D = Inr D' \<Longrightarrow> dom (map_of D') = insert f (dom (map_of D))"
  by (auto simp: shutil_move_def update_conv' map_add_def split: option.splits node.splits)

lemma shutil_move_distinct:
  "shutil_move src f D = Inr D' \<Longrightarrow> distinct (map fst D) \<Longrightarrow> distinct (map fst D')"
  by (auto simp: shutil_move_def distinct_update map_of_eq_None_iff split: option.splits node.splits)

lemma shutil_move_frame:
  assumes "shutil_move src f D = Inr D'"
  shows "(\<forall>g. g \<noteq> f \<longrightarrow> map_of D' g = map_of D g) \<and> dom (map_of D) \<subseteq> dom (map_of D')
         \<and> (distinct (map fst D) \<longrightarrow> distinct (map fst D'))"
  using shutil_move_other [OF assms] shutil_move_dom [OF assms] shutil_move_distinct [OF assms]
  by auto

lemma shutil_move_fresh:
  "map_of D f = None \<Longrightarrow> shutil_move (Some n) f D = Inr (D @ [(f, n)])"
  by (simp add: shutil_move_def)

lemma move_to_backup_frame:
  assumes "move_to_backup f R = Inr R'" and "f \<noteq> ''oldFiles''"
    and "backup_of R = Some B" and "distinct (map fst R)"
  shows "distinct (map fst R') \<and> (\<exists>B'. backup_of R' = Some B'
           \<and> map_of B' ''oldFiles'' = map_of B ''oldFiles''
           \<and> dom (map_of B) \<subseteq> dom (map_of B'))"
proof -
  from assms(3) have b: "map_of R ''oldFiles'' = Some (Dir B)"
    by (auto simp: backup_of_def split: option.splits node.splits)
  with assms(1) obtain B' where B': "shutil_move (map_of R f) f B = Inr B'"
    and R': "R' = AList.update ''oldFiles'' (Dir B') (AList.delete f R)"
    by (auto simp: move_to_backup_def split: sum.splits)
  have "distinct (map fst R')"
    using R' assms(4) by (simp add: distinct_update distinct_delete)
  moreover have "backup_of R' = Some B'"
    using R' by (simp add: backup_of_def update_conv')
  moreover have "map_of B' ''oldFiles'' = map_of B ''oldFiles''" "dom (map_of B) \<subseteq> dom (map_of B')"
    using shutil_move_frame [OF B'] assms(2) by auto
  ultimately show ?thesis by blast
qed

lemma move_old_frame:
  assumes "backup_of R = Some B" and "distinct (map fst R)"
  shows "distinct (map fst (snd (move_old fs R))) \<and> (\<exists>B'. backup_of (snd (move_old fs R)) = Some B'
           \<and> map_of B' ''oldFiles'' = map_of B ''oldFiles''
           \<and> dom (map_of B) \<subseteq> dom (map_of B'))"
  using assms
proof (induction fs arbitrary: R B)
  case Nil
  then show ?case by simp
next
  case (Cons f fs)
  show ?case
  proof (cases "str_contains ''oldFiles'' f")
    case True
    then show ?thesis using Cons.IH [OF Cons.prems] by simp
  next
    case False
    then have ne: "f \<noteq> ''oldFiles''" using str_contains_refl [of "''oldFiles''"] by auto
    show ?thesis
    proof (cases "move_to_backup f R")
      case (Inl e)
      then show ?thesis using False Cons.prems by simp
    next
      case (Inr R1)
      from move_to_backup_frame [OF Inr ne Cons.prems] obtain B1 where
        d1: "distinct (map fst R1)" and b1: "backup_of R1 = Some B1"
        and k1: "map_of B1 ''oldFiles'' = map_of B ''oldFiles''"
        and s1: "dom (map_of B) \<subseteq> dom (map_of B1)"
        by blast
      from Cons.IH [OF b1 d1] obtain B' where
        "distinct (map fst (snd (move_old fs R1)))" "backup_of (snd (move_old fs R1)) = Some B'"
        "map_of B' ''oldFiles'' = map_of B1 ''oldFiles''" "dom (map_of B1) \<subseteq> dom (map_of B')"
        by blast
      then show ?thesis using False Inr k1 s1 by auto
    qed
  qed
qed

lemma move_new_frame:
  assumes "''oldFiles'' \<notin> set fs" and "distinct (map fst R)"
  shows "distinct (map fst (snd (snd (move_new fs O' R))))
         \<and> map_of (snd (snd (move_new fs O' R))) ''oldFiles'' = map_of R ''oldFiles''"
  using assms
proof (induction fs arbitrary: O' R)
  case Nil
  then show ?case by simp
next
  case (Cons f fs)
  show ?case
  proof (cases "shutil_move (map_of O' f) f R")
    case (Inl e)
    then show ?thesis using Cons.prems by simp
  next
    case (Inr R1)
    have "f \<noteq> ''oldFiles''" using Cons.prems by auto
    then have "map_of R1 ''oldFiles'' = map_of R ''oldFiles''" "distinct (map fst R1)"
      using shutil_move_frame [OF Inr] Cons.prems by auto
    then show ?thesis using Cons.IH [of R1 "AList.delete f O'"] Cons.prems Inr by simp
  qed
qed

lemma map_of_snoc_other: "g \<noteq> f \<Longrightarrow> ([f \<mapsto> n] ++ m) g = m g"
  by (simp add: map_add_def split: option.splits)

lemma map_of_snoc_same: "m f = None \<Longrightarrow> ([f \<mapsto> n] ++ m) f = Some n"
  by (simp add: map_add_def)

lemma move_old_moves:
  assumes "map_of R ''oldFiles'' = Some (Dir B)" and "distinct (map fst R)"
    and "set fs \<subseteq> dom (map_of R)" and "distinct fs"
    and "\<forall>f\<in>set fs. \<not> str_contains ''oldFiles'' f \<longrightarrow> map_of B f = None"
  shows "\<exists>R' B'. move_old fs R = (Inr (), R') \<and> distinct (map fst R')
           \<and> map_of R' ''oldFiles'' = Some (Dir B')
           \<and> (\<forall>g. map_of B' g = (if g \<in> set fs \<and> \<not> str_contains ''oldFiles'' g
                                   then map_of R g else map_of B g))
           \<and> (\<forall>g. g \<noteq> ''oldFiles'' \<longrightarrow>
                  map_of R' g = (if g \<in> set fs \<and> \<not> str_contains ''oldFiles'' g
                                 then None else map_of R g))"
  using assms
proof (induction fs arbitrary: R B)
  case Nil
  then show ?case by simp
next
  case (Cons f fs)
  show ?case
  proof (cases "str_contains ''oldFiles'' f")
    case True
    from Cons.prems have "set fs \<subseteq> dom (map_of R)" "distinct fs"
      "\<forall>f\<in>set fs. \<not> str_contains ''oldFiles'' f \<longrightarrow> map_of B f = None"
      by auto
    from Cons.IH [OF Cons.prems(1,2) this] obtain R' B' where
      h: "move_old fs R = (Inr (), R')" "distinct (map fst R')"
        "map_of R' ''oldFiles'' = Some (Dir B')"
        "\<forall>g. map_of B' g = (if g \<in> set fs \<and> \<not> str_contains ''oldFiles'' g
                                   then map_of R g else map_of B g)"
        "\<forall>g. g \<noteq> ''oldFiles'' \<longrightarrow>
                  map_of R' g = (if g \<in> set fs \<and> \<not> str_contains ''oldFiles'' g
                                 then None else map_of R g)"
      by blast
    have "move_old (f # fs) R = (Inr (), R')" using True h(1) by simp
    moreover have "\<forall>g. map_of B' g = (if g \<in> set (f # fs) \<and> \<not> str_contains ''oldFiles'' g
                                   then map_of R g else map_of B g)"
      using h(4) True by auto
    moreover have "\<forall>g. g \<noteq> ''oldFiles'' \<longrightarrow>
                  map_of R' g = (if g \<in> set (f # fs) \<and> \<not> str_contains ''oldFiles'' g
                                 then None else map_of R g)"
      using h(5) True by auto
    ultimately show ?thesis using h(2,3) by blast
  next
    case False
    then have ne: "f \<noteq> ''oldFiles''" using str_contains_refl [of "''oldFiles''"] by auto
    from Cons.prems obtain n where n: "map_of R f = Some n" by auto
    have bf: "map_of B f = None" using Cons.prems(5) False by simp
    let ?B1 = "B @ [(f, n)]"
    let ?R1 = "AList.update ''oldFiles'' (Dir ?B1) (AList.delete f R)"
    have step: "move_to_backup f R = Inr ?R1"
      using Cons.prems(1) n bf by (simp add: move_to_backup_def shutil_move_fresh)
    have r1: "map_of ?R1 ''oldFiles'' = Some (Dir ?B1)" by (simp add: update_conv')
    have d1: "distinct (map fst ?R1)"
      using Cons.prems(2) by (simp add: distinct_update distinct_delete)
    have m1: "\<And>g. g \<noteq> ''oldFiles'' \<Longrightarrow> map_of ?R1 g = (if g = f then None else map_of R g)"
      by (simp add: update_conv' delete_conv')
    have sub1: "set fs \<subseteq> dom (map_of ?R1)"
      using Cons.prems(3,4) by (auto simp: update_conv' delete_conv')
    have fresh1: "\<forall>f'\<in>set fs. \<not> str_contains ''oldFiles'' f' \<longrightarrow> map_of ?B1 f' = None"
      using Cons.prems(4,5) by (auto simp: map_of_snoc_other)
    have "distinct fs" using Cons.prems(4) by simp
    from Cons.IH [OF r1 d1 sub1 this fresh1] obtain R' B' where
      h: "move_old fs ?R1 = (Inr (), R')" "distinct (map fst R')"
        "map_of R' ''oldFiles'' = Some (Dir B')"
        "\<forall>g. map_of B' g = (if g \<in> set fs \<and> \<not> str_contains ''oldFiles'' g
                                   then map_of ?R1 g else map_of ?B1 g)"
        "\<forall>g. g \<noteq> ''oldFiles'' \<longrightarrow>
                  map_of R' g = (if g \<in> set fs \<and> \<not> str_contains ''oldFiles'' g
                                 then None else map_of ?R1 g)"
      by blast
    have "move_old (f # fs) R = (Inr (), R')" using False step h(1) by simp
    moreover have "\<forall>g. map_of B' g = (if g \<in> set (f # fs) \<and> \<not> str_contains ''oldFiles'' g
                                   then map_of R g else map_of B g)"
    proof
      fix g
      show "map_of B' g = (if g \<in> set (f # fs) \<and> \<not> str_contains ''oldFiles'' g
                                   then map_of R g else map_of B g)"
      proof (cases "g = f")
        case True
        then have "g \<notin> set fs" using Cons.prems(4) by simp
        then show ?thesis using h(4) True False n bf by (simp add: map_of_snoc_same)
      next
        case gf: False
        show ?thesis
        proof (cases "g \<in> set fs \<and> \<not> str_contains ''oldFiles'' g")
          case True
          then have "g \<noteq> ''oldFiles''" using str_contains_refl [of "''oldFiles''"] by auto
          then show ?thesis using h(4) True gf m1 [of g] by simp
        next
          case False
          then show ?thesis using h(4) gf by (auto simp: map_of_snoc_other)
        qed
      qed
    qed
    moreover have "\<forall>g. g \<noteq> ''oldFiles'' \<longrightarrow>
                  map_of R' g = (if g \<in> set (f # fs) \<and> \<not> str_contains ''oldFiles'' g
                                 then None else map_of R g)"
      using h(5) m1 False by auto
    ultimately show ?thesis using h(2,3) by blast
  qed
qed

lemma move_new_moves:
  assumes "distinct (map fst R)" and "set fs \<subseteq> dom (map_of O')" and "distinct fs"
    and "set fs \<inter> dom (map_of R) = {}"
  shows "\<exists>O'' R'. move_new fs O' R = (Inr (), O'', R') \<and> distinct (map fst R')
           \<and> (\<forall>g. map_of R' g = (if g \<in> set fs then map_of O' g else map_of R g))
           \<and> (\<forall>g. map_of O'' g = (if g \<in> set fs then None else map_of O' g))"
  using assms
proof (induction fs arbitrary: O' R)
  case Nil
  then show ?case by simp
next
  case (Cons f fs)
  from Cons.prems obtain n where n: "map_of O' f = Some n" by auto
  have rf: "map_of R f = None" using Cons.prems(4) by auto
  let ?R1 = "R @ [(f, n)]"
  let ?O1 = "AList.delete f O'"
  have step: "shutil_move (map_of O' f) f R = Inr ?R1"
    using n rf by (simp add: shutil_move_fresh)
  have d1: "distinct (map fst ?R1)"
    using Cons.prems(1) rf by (simp add: map_of_eq_None_iff)
  have sub1: "set fs \<subseteq> dom (map_of ?O1)"
    using Cons.prems(2,3) by (auto simp: delete_conv')
  have disj1: "set fs \<inter> dom (map_of ?R1) = {}"
    using Cons.prems(3,4) by auto
  have "distinct fs" using Cons.prems(3) by simp
  from Cons.IH [OF d1 sub1 this disj1] obtain O'' R' where
    h: "move_new fs ?O1 ?R1 = (Inr (), O'', R')" "distinct (map fst R')"
      "\<forall>g. map_of R' g = (if g \<in> set fs then map_of ?O1 g else map_of ?R1 g)"
      "\<forall>g. map_of O'' g = (if g \<in> set fs then None else map_of ?O1 g)"
    by blast
  have "move_new (f # fs) O' R = (Inr (), O'', R')" using step h(1) by simp
  moreover have "\<forall>g. map_of R' g = (if g \<in> set (f # fs) then map_of O' g else map_of R g)"
    using h(3) n rf Cons.prems(3) by (auto simp: map_of_snoc_other map_of_snoc_same delete_conv')
  moreover have "\<forall>g. map_of O'' g = (if g \<in> set (f # fs) then None else map_of O' g)"
    using h(4) by (auto simp: delete_conv')
  ultimately show ?case using h(2) by blast
qed

lemmas model_defs = bind_def enter_def validateData_def validatePath_def logMessage_def
  print_line_def compileIcon_def actool_cmd_def updateInfoPlist_def moveIconToApp_def
  move_to_backup_def shutil_move_def resignAppForLocalUse_def IconHandler_init_def
  os_rename_def splitext_def rfind_def Let_def

lemmas scenario_defs = scenario_env_def scenario_state_def nosign_env_def malformed_state_def
  nul_icon_path_def

lemma logMessage_frame: "\<exists>out. logMessage a b s = s\<lparr>stdout := out\<rparr>"
  by (auto simp: logMessage_def print_line_def Let_def)

lemma validatePath_cases:
  "validatePath E p s = (Inr True, s) \<and> resolve E p = Resolved
   \<or> (\<exists>e. validatePath E p s =
          (Inr False, logMessage (''Error finding the path '' @ p) (''The error was: '' @ e) s)
        \<and> resolve E p \<noteq> Resolved)"
  by (cases "resolve E p") (auto simp: validatePath_def)

lemma validatePath_frame:
  "\<exists>b out. validatePath E p s = (Inr b, s\<lparr>stdout := out\<rparr>)"
proof -
  from validatePath_cases [of E p s] show ?thesis
  proof
    assume "validatePath E p s = (Inr True, s) \<and> resolve E p = Resolved"
    then have "validatePath E p s = (Inr True, s\<lparr>stdout := stdout s\<rparr>)" by simp
    then show ?thesis by blast
  next
    assume "\<exists>e. validatePath E p s =
          (Inr False, logMessage (''Error finding the path '' @ p) (''The error was: '' @ e) s)
        \<and> resolve E p \<noteq> Resolved"
    then obtain e where "validatePath E p s =
          (Inr False, logMessage (''Error finding the path '' @ p) (''The error was: '' @ e) s)"
      by blast
    moreover obtain out where
      "logMessage (''Error finding the path '' @ p) (''The error was: '' @ e) s = s\<lparr>stdout := out\<rparr>"
      using logMessage_frame by blast
    ultimately show ?thesis by auto
  qed
qed

text \<open>
  Claim C5. When \<^verbatim>\<open>shutil.which("codesign")\<close> finds nothing (or an empty path),
  \<open>resignAppForLocalUse\<close> returns \<open>False\<close> and the state it leaves differs from
  the one it started in only in the lines printed: the signature directory is still
  there, and neither \<^verbatim>\<open>xattr\<close> nor \<^verbatim>\<open>codesign\<close> has been run.
\<close>

theorem resign_without_codesign:
  assumes "which E ''codesign'' = None \<or> which E ''codesign'' = Some []"
  shows "\<exists>out. resignAppForLocalUse E identity s = (Inr False, s\<lparr>stdout := out\<rparr>)"
proof -
  obtain b o1 where v: "validatePath E (path_str E (appBundlePath s)) s = (Inr b, s\<lparr>stdout := o1\<rparr>)"
    using validatePath_frame by blast
  obtain o2 where l: "logMessage ''codesign not found. Please install Xcode Command Line Tools.''
                 ''Install Xcode or run `xcode-select --install`.'' (s\<lparr>stdout := o1\<rparr>)
                 = s\<lparr>stdout := o1\<rparr>\<lparr>stdout := o2\<rparr>"
    using logMessage_frame by blast
  have "resignAppForLocalUse E identity s = (Inr False, s\<lparr>stdout := (if b then o2 else o1)\<rparr>)"
    using assms v l by (auto simp: resignAppForLocalUse_def bind_def)
  then show ?thesis by blast
qed

theorem resign_without_codesign_witness:
  "(which nosign_env ''codesign'' = None \<or> which nosign_env ''codesign'' = Some [])
   \<and> (\<exists>out. resignAppForLocalUse nosign_env ''-'' scenario_state
              = (Inr False, scenario_state\<lparr>stdout := out\<rparr>))
   \<and> codeSignature scenario_state = Some (Dir [(''CodeResources'', File ''sig'')])"
proof -
  have h: "which nosign_env ''codesign'' = None \<or> which nosign_env ''codesign'' = Some []"
    by (simp add: nosign_env_def scenario_env_def)
  show ?thesis
    using resign_without_codesign [OF h, of "''-''" scenario_state] h
    by (simp add: scenario_state_def)
qed

end
